theory Spec2Isabelle
  imports Complex_Main
begin

section \<open>Python string primitives used by the database manager\<close>

text \<open>
  A Python \<open>str\<close> is modelled as a \<open>string\<close>, whose characters are the code points
  below 256. \<open>str.split()\<close> without arguments and \<open>str.strip()\<close> treat the same
  characters as whitespace: tab, line feed, vertical tab, form feed, carriage return,
  the four separators 0x1C to 0x1F, the space, NEL (0x85) and the no-break space (0xA0).
\<close>

definition py_isspace :: "char \<Rightarrow> bool" where
  "py_isspace c \<longleftrightarrow> c \<in> set [CHR 0x09, CHR 0x0A, CHR 0x0B, CHR 0x0C, CHR 0x0D,
     CHR 0x1C, CHR 0x1D, CHR 0x1E, CHR 0x1F, CHR 0x20, CHR 0x85, CHR 0xA0]"

text \<open>
  \<open>s.split()\<close>: the maximal runs of non-whitespace characters, in order. The first
  argument collects the current run in reverse.
\<close>

fun split_ws :: "string \<Rightarrow> string \<Rightarrow> string list" where
  "split_ws acc [] = (if acc = [] then [] else [rev acc])"
| "split_ws acc (c # cs) =
     (if py_isspace c
      then (if acc = [] then split_ws [] cs else rev acc # split_ws [] cs)
      else split_ws (c # acc) cs)"

definition py_split :: "string \<Rightarrow> string list" where
  "py_split s = split_ws [] s"

text \<open>\<open>sep.join(parts)\<close>.\<close>

fun py_join :: "string \<Rightarrow> string list \<Rightarrow> string" where
  "py_join sep [] = []"
| "py_join sep [p] = p"
| "py_join sep (p # q # ps) = p @ sep @ py_join sep (q # ps)"

text \<open>\<open>s.strip()\<close>: leading and trailing whitespace removed.\<close>

definition py_strip :: "string \<Rightarrow> string" where
  "py_strip s = rev (dropWhile py_isspace (rev (dropWhile py_isspace s)))"

text \<open>
  \<open>s.upper()\<close> on the ASCII letters. A character outside \<open>a\<close> to \<open>z\<close> is left as
  it is; Python maps the other lower-case letters below 256 to characters outside ASCII
  (or, for 0xDF, to \<open>SS\<close>), so neither Python's result nor this one can then equal one
  of the keywords below, none of which contains \<open>SS\<close>.
\<close>

definition upper_char :: "char \<Rightarrow> char" where
  "upper_char c =
     (case map_of (zip ''abcdefghijklmnopqrstuvwxyz'' ''ABCDEFGHIJKLMNOPQRSTUVWXYZ'') c of
        None \<Rightarrow> c | Some u \<Rightarrow> u)"

definition py_upper :: "string \<Rightarrow> string" where
  "py_upper s = map upper_char s"

section \<open>The statement classifier: \<open>_is_write_operation\<close>\<close>

text \<open>
  \<open>re.sub(r'--.*?\n', '', sql, flags=re.MULTILINE)\<close>. Without DOTALL the dot matches
  every character but the line feed, so a match starts at \<open>--\<close> and ends with the first
  line feed after it, which it includes. Where no line feed follows, there is no match
  at that position and the scan moves on by one character.
\<close>

fun after_newline :: "string \<Rightarrow> string option" where
  "after_newline [] = None"
| "after_newline (c # cs) = (if c = CHR 0x0A then Some cs else after_newline cs)"

lemma after_newline_length [termination_simp]:
  "after_newline cs = Some r \<Longrightarrow> length r < Suc (length cs)"
  by (induction cs arbitrary: r) (auto split: if_splits)

fun strip_line_comments :: "string \<Rightarrow> string" where
  "strip_line_comments [] = []"
| "strip_line_comments [c] = [c]"
| "strip_line_comments (c # d # cs) =
     (if c = CHR ''-'' \<and> d = CHR ''-''
      then (case after_newline cs of
              Some r \<Rightarrow> strip_line_comments r
            | None \<Rightarrow> c # strip_line_comments (d # cs))
      else c # strip_line_comments (d # cs))"

text \<open>
  \<open>re.sub(r'/\*.*?\*/', '', sql_clean, flags=re.DOTALL)\<close>: a match starts at \<open>/*\<close>
  and ends with the first \<open>*/\<close> that begins after those two characters.
\<close>

fun after_close :: "string \<Rightarrow> string option" where
  "after_close [] = None"
| "after_close [c] = None"
| "after_close (c # d # cs) =
     (if c = CHR ''*'' \<and> d = CHR ''/'' then Some cs else after_close (d # cs))"

lemma after_close_length [termination_simp]:
  "after_close cs = Some r \<Longrightarrow> length r < Suc (length cs)"
  by (induction cs arbitrary: r rule: after_close.induct) (auto split: if_splits)

fun strip_block_comments :: "string \<Rightarrow> string" where
  "strip_block_comments [] = []"
| "strip_block_comments [c] = [c]"
| "strip_block_comments (c # d # cs) =
     (if c = CHR ''/'' \<and> d = CHR ''*''
      then (case after_close cs of
              Some r \<Rightarrow> strip_block_comments r
            | None \<Rightarrow> c # strip_block_comments (d # cs))
      else c # strip_block_comments (d # cs))"

definition write_keywords :: "string list" where
  "write_keywords = [''INSERT'', ''UPDATE'', ''DELETE'', ''DROP'', ''CREATE'',
     ''ALTER'', ''TRUNCATE'', ''GRANT'', ''REVOKE'', ''COMMIT'',
     ''ROLLBACK'', ''SAVEPOINT'']"

definition sql_clean :: "string \<Rightarrow> string" where
  "sql_clean sql = py_strip (strip_block_comments (strip_line_comments sql))"

text \<open>
  The source indexes \<open>sql_clean.split()[0]\<close> after it has checked that the stripped
  text is not empty; lemma \<open>py_split_strip_nonempty\<close> below shows that the list is
  then not empty, so the first branch of the \<open>case\<close> is never taken.
\<close>

definition is_write_operation :: "string \<Rightarrow> bool" where
  "is_write_operation sql =
     (let c = sql_clean sql in
      if c = [] then False
      else (case py_split c of
              [] \<Rightarrow> False
            | first_word # _ \<Rightarrow> py_upper first_word \<in> set write_keywords))"

subsection \<open>The classifier in the words of the specification\<close>

text \<open>
  Section 4.1 of the specification: strip single-line comments (from \<open>--\<close> to the end
  of the line) and block comments, trim, classify an empty remainder as READ, otherwise
  test the first token, in upper case, against the keyword set. A single-line comment
  is taken with its line feed, as the source takes it, and runs to the end of the text
  where no line feed follows. Block comments, trimming, tokens and upper case are the
  functions above.
\<close>

datatype statement_kind = READ | WRITE

fun spec_strip_line_comments :: "string \<Rightarrow> string" where
  "spec_strip_line_comments [] = []"
| "spec_strip_line_comments [c] = [c]"
| "spec_strip_line_comments (c # d # cs) =
     (if c = CHR ''-'' \<and> d = CHR ''-''
      then (case after_newline cs of
              Some r \<Rightarrow> spec_strip_line_comments r
            | None \<Rightarrow> [])
      else c # spec_strip_line_comments (d # cs))"

definition spec_classify :: "string \<Rightarrow> statement_kind" where
  "spec_classify statement =
     (let remaining = py_strip (strip_block_comments (spec_strip_line_comments statement)) in
      if remaining = [] then READ
      else (case py_split remaining of
              [] \<Rightarrow> READ
            | token # _ \<Rightarrow> if py_upper token \<in> set write_keywords then WRITE else READ))"

text \<open>
  Whether the scan of \<open>strip_line_comments\<close> meets a \<open>--\<close> with no line feed after
  it.
\<close>

fun unterminated_comment :: "string \<Rightarrow> bool" where
  "unterminated_comment [] = False"
| "unterminated_comment [c] = False"
| "unterminated_comment (c # d # cs) =
     (if c = CHR ''-'' \<and> d = CHR ''-''
      then (case after_newline cs of
              Some r \<Rightarrow> unterminated_comment r
            | None \<Rightarrow> True)
      else unterminated_comment (d # cs))"

section \<open>Data model\<close>

text \<open>The pydantic models of \<open>models.py\<close>. A row maps column names to values.\<close>

datatype sql_value = SqlNull | SqlInt int | SqlText string

type_synonym row = "(string \<times> sql_value) list"

record QueryResult =
  columns :: "string list"
  rows :: "row list"
  row_count :: int

record ColumnInfo =
  name :: string
  data_type :: string
  is_nullable :: bool
  default_value :: "string option"

text \<open>
  \<open>TableSchema.columns\<close> is the field \<open>table_columns\<close> here, since \<open>columns\<close> is
  the field of \<open>QueryResult\<close>.
\<close>

record TableSchema =
  schema_name :: string
  table_name :: string
  table_columns :: "ColumnInfo list"
  primary_key :: "string list"

text \<open>
  The exceptions that leave \<open>execute_query\<close> and \<open>get_table_schema\<close>:
  \<^item> \<open>NotConnected\<close>: \<open>RuntimeError\<close>, no connection is held;
  \<^item> \<open>WriteDisabled\<close>: the \<open>ValueError\<close> that rejects a write while writes are
    not allowed (the spec's PolicyError);
  \<^item> \<open>SqlError\<close>: the \<open>RuntimeError\<close> that wraps a \<open>psycopg2.Error\<close> of the
    query path (the spec's ExecutionError);
  \<^item> \<open>MinEmpty\<close>: the \<open>ValueError\<close> of \<open>min\<close> on an empty sequence;
  \<^item> \<open>TableNotFound\<close>: the \<open>ValueError\<close> for a table without columns (the spec's
    NotFoundError);
  \<^item> \<open>SchemaError\<close>: the \<open>RuntimeError\<close> that wraps a \<open>psycopg2.Error\<close> of the
    schema path.
\<close>

datatype py_error =
    NotConnected
  | WriteDisabled
  | SqlError string
  | MinEmpty
  | TableNotFound string string
  | SchemaError string

text \<open>
  The module constants \<open>CACHE_TTL\<close> and \<open>MAX_CACHE_SIZE\<close> are read from the
  environment with \<open>int(...)\<close>, so they are arbitrary integers. \<open>md5hex\<close> stands for
  \<open>hashlib.md5(s.encode()).hexdigest()\<close>, a library function taken as a parameter.
\<close>

record config =
  cache_ttl :: int
  max_cache_size :: int
  md5hex :: "string \<Rightarrow> string"

subsection \<open>The database driver\<close>

text \<open>
  What the code sees of psycopg2. A statement either raises a \<open>psycopg2.Error\<close>
  (\<open>Inl\<close>, with its message) or yields a cursor with a \<open>description\<close> (the column
  names, or \<open>None\<close>) and the outcome of \<open>fetchall()\<close>, which may raise as well.
  The catalog answers the two metadata queries of \<open>get_table_schema\<close>.
\<close>

record cursor =
  description :: "string list option"
  fetchall :: "string + row list"

type_synonym database = "string \<Rightarrow> string + cursor"

record column_row =
  column_name :: string
  col_data_type :: string
  col_is_nullable :: string
  column_default :: "string option"

record catalog =
  column_query :: "string \<Rightarrow> string \<Rightarrow> string + column_row list"
  pk_query :: "string \<Rightarrow> string \<Rightarrow> string + string list"

subsection \<open>The manager's state\<close>

text \<open>
  A Python \<open>dict\<close> keeps its keys in insertion order, and \<open>min\<close> returns the first
  minimal element in that order, so both caches are association lists with distinct
  keys: assigning to a present key keeps its place, a new key goes to the end.
  Timestamps are the readings of \<open>time.time()\<close>, taken as real numbers.

  \<open>db_calls\<close> is not a field of the source: it records each time a cursor is opened
  on the connection, so that theorems can say whether the driver was invoked.
\<close>

datatype db_call = Execute string | Describe string string

record manager =
  connection :: bool
  allow_write_ops :: bool
  cache_enabled :: bool
  query_cache :: "(string \<times> (QueryResult \<times> real)) list"
  schema_cache :: "(string \<times> (TableSchema \<times> real)) list"
  db_calls :: "db_call list"

fun dict_set :: "'k \<Rightarrow> 'v \<Rightarrow> ('k \<times> 'v) list \<Rightarrow> ('k \<times> 'v) list" where
  "dict_set k v [] = [(k, v)]"
| "dict_set k v ((k', v') # d) =
     (if k' = k then (k, v) # d else (k', v') # dict_set k v d)"

definition dict_del :: "'k \<Rightarrow> ('k \<times> 'v) list \<Rightarrow> ('k \<times> 'v) list" where
  "dict_del k d = filter (\<lambda>e. fst e \<noteq> k) d"

text \<open>
  \<open>min(seq, key=f)\<close> on a sequence with first element \<open>m\<close>: a later element replaces
  the current minimum only when its key is strictly smaller.
\<close>

fun py_min_by :: "('a \<Rightarrow> real) \<Rightarrow> 'a \<Rightarrow> 'a list \<Rightarrow> 'a" where
  "py_min_by f m [] = m"
| "py_min_by f m (x # xs) = (if f x < f m then py_min_by f x xs else py_min_by f m xs)"

section \<open>The result cache\<close>

definition get_cache_key :: "config \<Rightarrow> string \<Rightarrow> string" where
  "get_cache_key cfg sql = md5hex cfg (py_join '' '' (py_split sql))"

text \<open>\<open>_get_cached_result\<close>, with \<open>now\<close> the reading of the clock.\<close>

definition get_cached_result ::
    "config \<Rightarrow> real \<Rightarrow> string \<Rightarrow> manager \<Rightarrow> QueryResult option \<times> manager" where
  "get_cached_result cfg now cache_key s =
     (if \<not> cache_enabled s then (None, s)
      else (case map_of (query_cache s) cache_key of
              None \<Rightarrow> (None, s)
            | Some (result, timestamp) \<Rightarrow>
                if now - timestamp > real_of_int (cache_ttl cfg)
                then (None, s\<lparr>query_cache := dict_del cache_key (query_cache s)\<rparr>)
                else (Some result, s)))"

text \<open>
  The key of the oldest entry: \<open>min(self._query_cache.keys(), key=lambda k:
  self._query_cache[k][1])\<close>, which raises on an empty cache.
\<close>

definition oldest_key :: "(string \<times> ('v \<times> real)) list \<Rightarrow> py_error + string" where
  "oldest_key d =
     (case d of
        [] \<Rightarrow> Inl MinEmpty
      | e # es \<Rightarrow> Inr (fst (py_min_by (\<lambda>x. snd (snd x)) e es)))"

text \<open>\<open>_set_cached_result\<close>.\<close>

definition set_cached_result ::
    "config \<Rightarrow> real \<Rightarrow> string \<Rightarrow> QueryResult \<Rightarrow> manager \<Rightarrow> py_error + manager" where
  "set_cached_result cfg now cache_key result s =
     (if \<not> cache_enabled s then Inr s
      else if int (length (query_cache s)) \<ge> max_cache_size cfg
      then (case oldest_key (query_cache s) of
              Inl e \<Rightarrow> Inl e
            | Inr k \<Rightarrow>
                Inr (s\<lparr>query_cache :=
                  dict_set cache_key (result, now) (dict_del k (query_cache s))\<rparr>))
      else Inr (s\<lparr>query_cache := dict_set cache_key (result, now) (query_cache s)\<rparr>))"

definition clear_cache :: "manager \<Rightarrow> manager" where
  "clear_cache s = s\<lparr>query_cache := [], schema_cache := []\<rparr>"

section \<open>The query gateway: \<open>execute_query\<close>\<close>

text \<open>
  The body of the \<open>try\<close> block: the cursor is opened and the statement executed; a
  \<open>psycopg2.Error\<close> from \<open>execute\<close> or \<open>fetchall\<close> is re-raised as a
  \<open>RuntimeError\<close>, any other exception (the \<open>ValueError\<close> of \<open>min\<close>) passes
  through. \<open>cacheable\<close> is \<open>not is_write and use_cache\<close>; \<open>now\<close> is the clock read
  by \<open>_set_cached_result\<close>.
\<close>

definition run_statement ::
    "config \<Rightarrow> database \<Rightarrow> real \<Rightarrow> string \<Rightarrow> bool \<Rightarrow> manager
      \<Rightarrow> (py_error + QueryResult) \<times> manager" where
  "run_statement cfg db now sql cacheable s =
     (let s' = s\<lparr>db_calls := db_calls s @ [Execute sql]\<rparr> in
      case db sql of
        Inl e \<Rightarrow> (Inl (SqlError e), s')
      | Inr cur \<Rightarrow>
          (let cols = (case description cur of None \<Rightarrow> [] | Some d \<Rightarrow> d) in
           case fetchall cur of
             Inl e \<Rightarrow> (Inl (SqlError e), s')
           | Inr fetched \<Rightarrow>
               (let result = \<lparr>columns = cols, rows = fetched,
                              row_count = int (length fetched)\<rparr> in
                if cacheable
                then (case set_cached_result cfg now (get_cache_key cfg sql) result s' of
                        Inl e \<Rightarrow> (Inl e, s')
                      | Inr s'' \<Rightarrow> (Inr result, s''))
                else (Inr result, s'))))"

text \<open>
  \<open>execute_query(sql, use_cache)\<close>. \<open>t_get\<close> and \<open>t_put\<close> are the readings of the
  clock in \<open>_get_cached_result\<close> and \<open>_set_cached_result\<close>. The result is the
  returned value or the exception raised, with the state the call leaves behind.
\<close>

definition execute_query ::
    "config \<Rightarrow> database \<Rightarrow> real \<Rightarrow> real \<Rightarrow> string \<Rightarrow> bool \<Rightarrow> manager
      \<Rightarrow> (py_error + QueryResult) \<times> manager" where
  "execute_query cfg db t_get t_put sql use_cache s =
     (if \<not> connection s then (Inl NotConnected, s)
      else
        (let is_write = is_write_operation sql in
         if is_write \<and> \<not> allow_write_ops s then (Inl WriteDisabled, s)
         else
           (let s1 = (if is_write \<and> cache_enabled s then clear_cache s else s);
                (cached, s2) =
                   (if \<not> is_write \<and> use_cache
                    then get_cached_result cfg t_get (get_cache_key cfg sql) s1
                    else (None, s1))
            in case cached of
                 Some r \<Rightarrow> (Inr r, s2)
               | None \<Rightarrow> run_statement cfg db t_put sql (\<not> is_write \<and> use_cache) s2)))"

section \<open>The schema lookup: \<open>get_table_schema\<close>\<close>

definition column_info :: "column_row \<Rightarrow> ColumnInfo" where
  "column_info r = \<lparr>name = column_name r, data_type = col_data_type r,
     is_nullable = (col_is_nullable r = ''YES''), default_value = column_default r\<rparr>"

text \<open>The cache check at the head of \<open>get_table_schema\<close>.\<close>

definition schema_cache_lookup ::
    "config \<Rightarrow> real \<Rightarrow> string \<Rightarrow> bool \<Rightarrow> manager \<Rightarrow> TableSchema option \<times> manager" where
  "schema_cache_lookup cfg now cache_key use_cache s =
     (if use_cache \<and> cache_enabled s
      then (case map_of (schema_cache s) cache_key of
              None \<Rightarrow> (None, s)
            | Some (schema_obj, timestamp) \<Rightarrow>
                if now - timestamp \<le> real_of_int (cache_ttl cfg)
                then (Some schema_obj, s)
                else (None, s\<lparr>schema_cache := dict_del cache_key (schema_cache s)\<rparr>))
      else (None, s))"

definition get_table_schema ::
    "config \<Rightarrow> catalog \<Rightarrow> real \<Rightarrow> real \<Rightarrow> string \<Rightarrow> string \<Rightarrow> bool \<Rightarrow> manager
      \<Rightarrow> (py_error + TableSchema) \<times> manager" where
  "get_table_schema cfg cat t_get t_put sname tname use_cache s =
     (if \<not> connection s then (Inl NotConnected, s)
      else
        (let cache_key = sname @ ''.'' @ tname;
             (cached, s1) = schema_cache_lookup cfg t_get cache_key use_cache s
         in case cached of
              Some schema_obj \<Rightarrow> (Inr schema_obj, s1)
            | None \<Rightarrow>
                (let s2 = s1\<lparr>db_calls := db_calls s1 @ [Describe sname tname]\<rparr> in
                 case column_query cat sname tname of
                   Inl e \<Rightarrow> (Inl (SchemaError e), s2)
                 | Inr column_rows \<Rightarrow>
                     if column_rows = [] then (Inl (TableNotFound sname tname), s2)
                     else
                       (case pk_query cat sname tname of
                          Inl e \<Rightarrow> (Inl (SchemaError e), s2)
                        | Inr pk_rows \<Rightarrow>
                            (let schema_obj = \<lparr>schema_name = sname, table_name = tname,
                                   table_columns = map column_info column_rows,
                                   primary_key = pk_rows\<rparr> in
                             if use_cache \<and> cache_enabled s2
                             then (Inr schema_obj, s2\<lparr>schema_cache :=
                                     dict_set cache_key (schema_obj, t_put) (schema_cache s2)\<rparr>)
                             else (Inr schema_obj, s2))))))"

section \<open>Statements that differ in layout only\<close>

text \<open>
  Two statements differ only in whitespace runs when one is obtained from the other
  by replacing a run of whitespace inside it by another run (neither empty), or by
  adding or removing whitespace at its start or its end, any number of times.
  \<open>flush\<close> is the token that \<open>split_ws\<close> emits for its accumulator.
\<close>

inductive same_layout :: "string \<Rightarrow> string \<Rightarrow> bool" where
  same: "same_layout s s"
| run: "w \<noteq> [] \<Longrightarrow> w' \<noteq> [] \<Longrightarrow> list_all py_isspace w \<Longrightarrow> list_all py_isspace w'
        \<Longrightarrow> same_layout (a @ w @ b) (a @ w' @ b)"
| leading: "list_all py_isspace w \<Longrightarrow> same_layout (w @ s) s"
| trailing: "list_all py_isspace w \<Longrightarrow> same_layout (s @ w) s"
| sym: "same_layout s t \<Longrightarrow> same_layout t s"
| trans: "same_layout s t \<Longrightarrow> same_layout t u \<Longrightarrow> same_layout s u"

definition flush :: "string \<Rightarrow> string list" where
  "flush acc = (if acc = [] then [] else [rev acc])"

section \<open>Scripts of cache operations\<close>

text \<open>
  A sequence of calls of \<open>_set_cached_result\<close> (\<open>Put\<close>) and \<open>_get_cached_result\<close>
  (\<open>Get\<close>), each with the reading of the clock at the call, run from left to right;
  an exception ends the script. \<open>reads\<close> turns a list of keys and times into lookups.
\<close>

datatype cache_op = Put string QueryResult real | Get string real

fun run_ops :: "config \<Rightarrow> cache_op list \<Rightarrow> manager \<Rightarrow> py_error + manager" where
  "run_ops cfg [] s = Inr s"
| "run_ops cfg (Put k v t # ops) s =
     (case set_cached_result cfg t k v s of
        Inl e \<Rightarrow> Inl e
      | Inr s' \<Rightarrow> run_ops cfg ops s')"
| "run_ops cfg (Get k t # ops) s = run_ops cfg ops (snd (get_cached_result cfg t k s))"

definition reads :: "(string \<times> real) list \<Rightarrow> cache_op list" where
  "reads g = map (\<lambda>(k, t). Get k t) g"

section \<open>Example configuration, driver and states\<close>

text \<open>
  Concrete inputs on which the theorems below are exercised: the default settings
  (TTL 300, at most 128 entries), a small cache of two entries, a driver that answers
  every statement with one row, one that fails, and a connected manager.
\<close>

definition default_config :: config where
  "default_config = \<lparr>cache_ttl = 300, max_cache_size = 128, md5hex = (\<lambda>s. s)\<rparr>"

definition small_config :: config where
  "small_config = \<lparr>cache_ttl = 300, max_cache_size = 2, md5hex = (\<lambda>s. s)\<rparr>"

definition one_row :: QueryResult where
  "one_row = \<lparr>columns = [''n''], rows = [[(''n'', SqlInt 1)]], row_count = 1\<rparr>"

definition answering_db :: database where
  "answering_db sql =
     Inr \<lparr>description = Some [''n''], fetchall = Inr [[(''n'', SqlInt 1)]]\<rparr>"

definition failing_db :: database where
  "failing_db sql = Inl ''syntax error''"

definition fresh_manager :: manager where
  "fresh_manager = \<lparr>connection = True, allow_write_ops = False, cache_enabled = True,
     query_cache = [], schema_cache = [], db_calls = []\<rparr>"

definition users_schema :: TableSchema where
  "users_schema = \<lparr>schema_name = ''public'', table_name = ''users'',
     table_columns = [\<lparr>name = ''id'', data_type = ''integer'', is_nullable = False,
                        default_value = None\<rparr>],
     primary_key = [''id'']\<rparr>"

text \<open>A manager that allows writes and holds one entry in each cache.\<close>

definition warm_manager :: manager where
  "warm_manager = \<lparr>connection = True, allow_write_ops = True, cache_enabled = True,
     query_cache = [(''SELECT 1'', (one_row, 10))],
     schema_cache = [(''public.users'', (users_schema, 10))],
     db_calls = [Execute ''SELECT 1'', Describe ''public'' ''users'']\<rparr>"

text \<open>A manager whose result cache holds two entries, \<open>A\<close> stored before \<open>B\<close>.\<close>

definition full_manager :: manager where
  "full_manager = \<lparr>connection = True, allow_write_ops = False, cache_enabled = True,
     query_cache = [(''A'', (one_row, 1)), (''B'', (one_row, 2))],
     schema_cache = [], db_calls = []\<rparr>"

text \<open>
  The fresh manager after one successful \<open>SELECT 1\<close> whose result was stored at
  time 2, and a catalog that knows no table.
\<close>

definition cached_manager :: manager where
  "cached_manager = \<lparr>connection = True, allow_write_ops = False, cache_enabled = True,
     query_cache = [(''SELECT 1'', (one_row, 2))], schema_cache = [],
     db_calls = [Execute ''SELECT 1'']\<rparr>"

definition empty_catalog :: catalog where
  "empty_catalog = \<lparr>column_query = (\<lambda>sname tname. Inr []),
     pk_query = (\<lambda>sname tname. Inr [])\<rparr>"

section \<open>Evaluating the classifier\<close>

lemmas classifier_defs = is_write_operation_def sql_clean_def py_strip_def py_isspace_def
  py_split_def py_upper_def upper_char_def write_keywords_def

text \<open>A stripped text that is not empty has a first token.\<close>

lemma split_ws_pending: "acc \<noteq> [] \<Longrightarrow> split_ws acc cs \<noteq> []"
  by (induction cs arbitrary: acc) auto

lemma py_strip_starts_with_token:
  "py_strip s = c # cs \<Longrightarrow> \<not> py_isspace c"
proof -
  assume strip: "py_strip s = c # cs"
  let ?d = "dropWhile py_isspace s"
  have "?d \<noteq> []"
  proof
    assume e: "?d = []"
    have "py_strip s = rev (dropWhile py_isspace (rev ?d))"
      by (simp only: py_strip_def)
    also have "\<dots> = []"
      by (simp only: e rev.simps dropWhile.simps)
    finally show False using strip by simp
  qed
  then have head: "\<not> py_isspace (hd ?d)" by (rule hd_dropWhile)
  have "rev (dropWhile py_isspace (rev ?d)) = c # cs" using strip by (simp add: py_strip_def)
  then have "dropWhile py_isspace (rev ?d) = rev (c # cs)" by (metis rev_rev_ident)
  then have "rev ?d = takeWhile py_isspace (rev ?d) @ rev cs @ [c]"
    by (metis takeWhile_dropWhile_id rev.simps(2))
  then have "?d = c # cs @ rev (takeWhile py_isspace (rev ?d))"
    by (metis append.assoc append_Cons append_Nil rev.simps(2) rev_append rev_rev_ident)
  then have "hd ?d = c" by (metis list.sel(1))
  with head show ?thesis by simp
qed

lemma py_split_strip_nonempty: "py_strip s \<noteq> [] \<Longrightarrow> py_split (py_strip s) \<noteq> []"
proof -
  assume "py_strip s \<noteq> []"
  then obtain c cs where strip: "py_strip s = c # cs" by (cases "py_strip s") auto
  then have "\<not> py_isspace c" by (rule py_strip_starts_with_token)
  then show ?thesis by (simp add: strip py_split_def split_ws_pending)
qed

lemma first_word_exists: "sql_clean sql \<noteq> [] \<Longrightarrow> py_split (sql_clean sql) \<noteq> []"
  unfolding sql_clean_def by (rule py_split_strip_nonempty)

lemma drop_table_is_write: "is_write_operation ''DROP TABLE x''"
  by (simp add: classifier_defs)

lemma select_is_read: "\<not> is_write_operation ''SELECT 1''"
  by (simp add: classifier_defs)

section \<open>The policy gate\<close>

text \<open>
  C3. With the connection established, a statement classified as a write is rejected
  with the policy error while writes are not allowed, and the driver is not invoked:
  the log of driver calls is what it was.
\<close>

theorem write_rejected_when_disabled:
  assumes "connection s" and "is_write_operation sql" and "\<not> allow_write_ops s"
  shows "fst (execute_query cfg db t_get t_put sql use_cache s) = Inl WriteDisabled
       \<and> db_calls (snd (execute_query cfg db t_get t_put sql use_cache s)) = db_calls s"
  using assms by (simp add: execute_query_def)

theorem write_rejected_when_disabled_witness:
  "connection fresh_manager \<and> is_write_operation ''DROP TABLE x''
   \<and> \<not> allow_write_ops fresh_manager
   \<and> fst (execute_query default_config answering_db 1 2 ''DROP TABLE x'' True fresh_manager)
       = Inl WriteDisabled
   \<and> db_calls (snd (execute_query default_config answering_db 1 2 ''DROP TABLE x'' True
        fresh_manager)) = []"
proof -
  have c: "connection fresh_manager" and a: "\<not> allow_write_ops fresh_manager"
    by (simp_all add: fresh_manager_def)
  have d: "db_calls fresh_manager = []"
    by (simp add: fresh_manager_def)
  show ?thesis
    using write_rejected_when_disabled [OF c drop_table_is_write a,
        of default_config answering_db 1 2 True] c a d drop_table_is_write
    by simp
qed

text \<open>
  C10. A write that is rejected because writes are not allowed changes nothing: the
  call raises and the manager, with both caches, is left as it was. The check comes
  before the call of \<open>clear_cache\<close>.
\<close>

theorem policy_rejection_keeps_caches:
  assumes "is_write_operation sql" and "\<not> allow_write_ops s"
  shows "isl (fst (execute_query cfg db t_get t_put sql use_cache s))
       \<and> snd (execute_query cfg db t_get t_put sql use_cache s) = s
       \<and> query_cache (snd (execute_query cfg db t_get t_put sql use_cache s)) = query_cache s
       \<and> schema_cache (snd (execute_query cfg db t_get t_put sql use_cache s)) = schema_cache s"
  using assms by (simp add: execute_query_def)

theorem policy_rejection_keeps_caches_witness:
  "is_write_operation ''DROP TABLE x''
   \<and> \<not> allow_write_ops (warm_manager\<lparr>allow_write_ops := False\<rparr>)
   \<and> snd (execute_query default_config answering_db 11 12 ''DROP TABLE x'' True
        (warm_manager\<lparr>allow_write_ops := False\<rparr>)) = warm_manager\<lparr>allow_write_ops := False\<rparr>
   \<and> query_cache (snd (execute_query default_config answering_db 11 12 ''DROP TABLE x'' True
        (warm_manager\<lparr>allow_write_ops := False\<rparr>))) = [(''SELECT 1'', (one_row, 10))]"
proof -
  have a: "\<not> allow_write_ops (warm_manager\<lparr>allow_write_ops := False\<rparr>)"
    by simp
  have q: "query_cache (warm_manager\<lparr>allow_write_ops := False\<rparr>)
      = [(''SELECT 1'', (one_row, 10))]"
    by (simp add: warm_manager_def)
  show ?thesis
    using policy_rejection_keeps_caches [OF drop_table_is_write a,
        of default_config answering_db 11 12 True] a q drop_table_is_write
    by simp
qed

section \<open>Dictionaries and the oldest entry\<close>

lemma map_of_dict_del: "map_of (dict_del k d) k' = (if k' = k then None else map_of d k')"
  by (induction d) (auto simp: dict_del_def)

lemma map_of_dict_set: "map_of (dict_set k v d) k' = (if k' = k then Some v else map_of d k')"
  by (induction d) auto

lemma dict_set_absent: "map_of d k = None \<Longrightarrow> dict_set k v d = d @ [(k, v)]"
  by (induction d) (auto split: if_splits)

lemma keys_dict_set_present: "map_of d k = Some x \<Longrightarrow> map fst (dict_set k v d) = map fst d"
  by (induction d) (auto split: if_splits)

lemma length_dict_set_present: "map_of d k = Some x \<Longrightarrow> length (dict_set k v d) = length d"
  by (induction d) (auto split: if_splits)

lemma length_dict_del_present: "map_of d k = Some x \<Longrightarrow> length (dict_del k d) < length d"
  by (induction d) (auto simp: dict_del_def less_Suc_eq_le split: if_splits)

lemma dict_del_absent: "map_of d k = None \<Longrightarrow> dict_del k d = d"
  by (induction d) (auto simp: dict_del_def split: if_splits)

lemma py_min_by_mem: "py_min_by f m xs \<in> set (m # xs)"
  by (induction xs arbitrary: m) auto

lemma py_min_by_le_start: "f (py_min_by f m xs) \<le> f m"
proof (induction xs arbitrary: m)
  case Nil
  show ?case by simp
next
  case (Cons y ys)
  show ?case
  proof (cases "f y < f m")
    case True
    have "f (py_min_by f y ys) \<le> f y" by (rule Cons.IH)
    with True show ?thesis by simp
  next
    case False
    then show ?thesis by (simp add: Cons.IH)
  qed
qed

lemma py_min_by_least: "x \<in> set xs \<Longrightarrow> f (py_min_by f m xs) \<le> f x"
proof (induction xs arbitrary: m)
  case Nil
  then show ?case by simp
next
  case (Cons y ys)
  have start: "f (py_min_by f (if f y < f m then y else m) ys) \<le> f (if f y < f m then y else m)"
    by (rule py_min_by_le_start)
  show ?case
  proof (cases "x = y")
    case True
    with start show ?thesis by (auto split: if_splits)
  next
    case False
    with Cons.prems have "x \<in> set ys" by simp
    then show ?thesis by (simp add: Cons.IH)
  qed
qed

lemma oldest_key_Inr:
  assumes "d \<noteq> []"
  shows "\<exists>k r ts. oldest_key d = Inr k \<and> (k, (r, ts)) \<in> set d \<and> (\<forall>e \<in> set d. ts \<le> snd (snd e))"
proof -
  from assms obtain e es where d: "d = e # es" by (cases d) auto
  let ?m = "py_min_by (\<lambda>x. snd (snd x)) e es"
  have mem: "?m \<in> set d" using py_min_by_mem[of "\<lambda>x. snd (snd x)" e es] d by simp
  have least: "\<forall>x \<in> set d. snd (snd ?m) \<le> snd (snd x)"
    using py_min_by_least[of _ es "\<lambda>x. snd (snd x)" e] py_min_by_le_start[of "\<lambda>x. snd (snd x)" e es] d
    by auto
  have "oldest_key d = Inr (fst ?m)" by (simp add: oldest_key_def d)
  moreover have "(fst ?m, (fst (snd ?m), snd (snd ?m))) \<in> set d" using mem by simp
  ultimately show ?thesis using least by blast
qed

section \<open>Storing into the result cache\<close>

text \<open>
  C2, as the claim states it, fails: with two entries \<open>A\<close> and \<open>B\<close> in a cache
  of at most two, storing under the present key \<open>B\<close> evicts \<open>A\<close>.
\<close>

theorem overwrite_at_capacity_evicts:
  "map_of (query_cache full_manager) ''A'' = Some (one_row, 1)
   \<and> map_of (query_cache full_manager) ''B'' = Some (one_row, 2)
   \<and> set_cached_result small_config 3 ''B'' one_row full_manager
       = Inr (full_manager\<lparr>query_cache := [(''B'', (one_row, 3))]\<rparr>)"
  by (simp add: full_manager_def small_config_def set_cached_result_def oldest_key_def dict_del_def)

text \<open>
  C2, amended. The size of the cache alone decides on eviction, whether the key is
  present or not. Below the bound the entry is written in place (with the new time),
  every other key keeps its entry and, for a present key, the keys and their order stay
  as they were. At the bound, the entry with the smallest timestamp is deleted first
  and the key is stored afterwards.
\<close>

theorem put_evicts_by_size_alone:
  assumes en: "cache_enabled s"
  shows "(int (length (query_cache s)) < max_cache_size cfg \<longrightarrow>
            set_cached_result cfg now key v s
              = Inr (s\<lparr>query_cache := dict_set key (v, now) (query_cache s)\<rparr>)
            \<and> (\<forall>k'. k' \<noteq> key \<longrightarrow>
                 map_of (dict_set key (v, now) (query_cache s)) k' = map_of (query_cache s) k')
            \<and> map_of (dict_set key (v, now) (query_cache s)) key = Some (v, now)
            \<and> (map_of (query_cache s) key \<noteq> None \<longrightarrow>
                 map fst (dict_set key (v, now) (query_cache s)) = map fst (query_cache s)))
       \<and> (max_cache_size cfg \<le> int (length (query_cache s)) \<longrightarrow> query_cache s \<noteq> [] \<longrightarrow>
            (\<exists>k r ts. (k, (r, ts)) \<in> set (query_cache s)
               \<and> (\<forall>e \<in> set (query_cache s). ts \<le> snd (snd e))
               \<and> set_cached_result cfg now key v s
                   = Inr (s\<lparr>query_cache :=
                       dict_set key (v, now) (dict_del k (query_cache s))\<rparr>)))"
proof (intro conjI impI)
  assume "int (length (query_cache s)) < max_cache_size cfg"
  then show "set_cached_result cfg now key v s
      = Inr (s\<lparr>query_cache := dict_set key (v, now) (query_cache s)\<rparr>)"
    using en by (simp add: set_cached_result_def)
next
  show "\<forall>k'. k' \<noteq> key \<longrightarrow>
      map_of (dict_set key (v, now) (query_cache s)) k' = map_of (query_cache s) k'"
    by (simp add: map_of_dict_set)
next
  show "map_of (dict_set key (v, now) (query_cache s)) key = Some (v, now)"
    by (simp add: map_of_dict_set)
next
  assume "map_of (query_cache s) key \<noteq> None"
  then show "map fst (dict_set key (v, now) (query_cache s)) = map fst (query_cache s)"
    by (auto simp: keys_dict_set_present)
next
  assume full: "max_cache_size cfg \<le> int (length (query_cache s))" and ne: "query_cache s \<noteq> []"
  from oldest_key_Inr[OF ne] obtain k r ts where
    k: "oldest_key (query_cache s) = Inr k" and
    mem: "(k, (r, ts)) \<in> set (query_cache s)" and
    least: "\<forall>e \<in> set (query_cache s). ts \<le> snd (snd e)"
    by blast
  have "set_cached_result cfg now key v s
      = Inr (s\<lparr>query_cache := dict_set key (v, now) (dict_del k (query_cache s))\<rparr>)"
    using en full k by (simp add: set_cached_result_def)
  with mem least show "\<exists>k r ts. (k, (r, ts)) \<in> set (query_cache s)
       \<and> (\<forall>e \<in> set (query_cache s). ts \<le> snd (snd e))
       \<and> set_cached_result cfg now key v s
           = Inr (s\<lparr>query_cache := dict_set key (v, now) (dict_del k (query_cache s))\<rparr>)"
    by blast
qed

theorem put_evicts_by_size_alone_witness:
  "cache_enabled warm_manager
   \<and> int (length (query_cache warm_manager)) < max_cache_size default_config
   \<and> map_of (query_cache warm_manager) ''SELECT 1'' \<noteq> None
   \<and> set_cached_result default_config 20 ''SELECT 1'' one_row warm_manager
       = Inr (warm_manager\<lparr>query_cache := [(''SELECT 1'', (one_row, 20))]\<rparr>)
   \<and> cache_enabled full_manager
   \<and> max_cache_size small_config \<le> int (length (query_cache full_manager))
   \<and> query_cache full_manager \<noteq> []
   \<and> set_cached_result small_config 4 ''C'' one_row full_manager
       = Inr (full_manager\<lparr>query_cache := [(''B'', (one_row, 2)), (''C'', (one_row, 4))]\<rparr>)"
proof -
  have w: "cache_enabled warm_manager" and f: "cache_enabled full_manager"
    by (simp_all add: warm_manager_def full_manager_def)
  show ?thesis
    using put_evicts_by_size_alone [OF w, of default_config 20 "''SELECT 1''" one_row]
      put_evicts_by_size_alone [OF f, of small_config 4 "''C''" one_row]
    by (simp add: warm_manager_def full_manager_def default_config_def small_config_def
        set_cached_result_def oldest_key_def dict_del_def)
qed

section \<open>Eviction by insertion time\<close>

lemma get_hit_keeps_state:
  "fst (get_cached_result cfg now key s) = Some r \<Longrightarrow> snd (get_cached_result cfg now key s) = s"
  by (auto simp: get_cached_result_def split: if_splits option.splits prod.splits)

lemma get_unexpired_keeps_state:
  assumes "\<forall>r ts. map_of (query_cache s) key = Some (r, ts) \<longrightarrow> now - ts \<le> real_of_int (cache_ttl cfg)"
  shows "snd (get_cached_result cfg now key s) = s"
  using assms by (auto simp: get_cached_result_def split: option.splits)

text \<open>
  After a lookup that found nothing, the key has no entry, so the store that follows a
  miss in \<open>execute_query\<close> never meets a present key.
\<close>

lemma miss_leaves_key_absent:
  assumes "cache_enabled s" and "fst (get_cached_result cfg now key s) = None"
  shows "map_of (query_cache (snd (get_cached_result cfg now key s))) key = None"
  using assms
  by (auto simp: get_cached_result_def map_of_dict_del split: option.splits if_splits)

lemma reads_keep_state:
  assumes "\<forall>(k, t) \<in> set g. \<forall>r ts. map_of (query_cache s) k = Some (r, ts)
             \<longrightarrow> t - ts \<le> real_of_int (cache_ttl cfg)"
  shows "run_ops cfg (reads g @ ops) s = run_ops cfg ops s"
  using assms
proof (induction g)
  case Nil
  show ?case by (simp add: reads_def)
next
  case (Cons a g)
  obtain k t where a: "a = (k, t)" by (cases a)
  have "snd (get_cached_result cfg t k s) = s"
    using Cons.prems a by (intro get_unexpired_keeps_state) auto
  moreover have "run_ops cfg (reads g @ ops) s = run_ops cfg ops s"
    using Cons by auto
  ultimately show ?case using a by (simp add: reads_def)
qed

text \<open>
  C5. In an empty cache of at most two entries, \<open>A\<close>, \<open>B\<close> and \<open>C\<close> are stored
  in this order, \<open>A\<close> not after \<open>B\<close> by the clock, with any lookups in between that
  find nothing expired. Storing \<open>C\<close> evicts \<open>A\<close>: the cache then holds \<open>B\<close> and
  \<open>C\<close>, each with the time at which it was stored, whatever was read in between.
\<close>

theorem fifo_eviction_ignores_reads:
  assumes en: "cache_enabled s" and empty: "query_cache s = []"
    and max2: "max_cache_size cfg = 2"
    and ab: "A \<noteq> B" and ac: "A \<noteq> C" and bc: "B \<noteq> C"
    and order: "tA \<le> tB"
    and g1: "\<forall>(k, t) \<in> set g1. t - tA \<le> real_of_int (cache_ttl cfg)"
    and g2: "\<forall>(k, t) \<in> set g2. t - tA \<le> real_of_int (cache_ttl cfg)
                                 \<and> t - tB \<le> real_of_int (cache_ttl cfg)"
  shows "run_ops cfg (Put A a tA # reads g1 @ Put B b tB # reads g2 @ [Put C c tC]) s
       = Inr (s\<lparr>query_cache := [(B, (b, tB)), (C, (c, tC))]\<rparr>)"
proof -
  let ?s1 = "s\<lparr>query_cache := [(A, (a, tA))]\<rparr>"
  let ?s2 = "s\<lparr>query_cache := [(A, (a, tA)), (B, (b, tB))]\<rparr>"
  have p1: "set_cached_result cfg tA A a s = Inr ?s1"
    using en empty max2 by (simp add: set_cached_result_def)
  have r1: "run_ops cfg (reads g1 @ ops) ?s1 = run_ops cfg ops ?s1" for ops
    using g1 by (intro reads_keep_state) (auto split: if_splits)
  have p2: "set_cached_result cfg tB B b ?s1 = Inr ?s2"
    using en max2 ab by (simp add: set_cached_result_def)
  have r2: "run_ops cfg (reads g2 @ ops) ?s2 = run_ops cfg ops ?s2" for ops
    using g2 by (intro reads_keep_state) (auto split: if_splits)
  have p3: "set_cached_result cfg tC C c ?s2
      = Inr (s\<lparr>query_cache := [(B, (b, tB)), (C, (c, tC))]\<rparr>)"
    using en max2 ab bc order
    by (simp add: set_cached_result_def oldest_key_def dict_del_def)
  show ?thesis
    by (simp add: p1 r1 p2 r2 p3)
qed

theorem fifo_eviction_ignores_reads_witness:
  "cache_enabled fresh_manager \<and> query_cache fresh_manager = []
   \<and> max_cache_size small_config = 2
   \<and> run_ops small_config
        (Put ''A'' one_row 1 # reads [(''A'', 2), (''A'', 3)]
          @ Put ''B'' one_row 4 # reads [(''B'', 5), (''A'', 6), (''A'', 7)]
          @ [Put ''C'' one_row 8]) fresh_manager
       = Inr (fresh_manager\<lparr>query_cache := [(''B'', (one_row, 4)), (''C'', (one_row, 8))]\<rparr>)"
proof -
  have en: "cache_enabled fresh_manager" and empty: "query_cache fresh_manager = []"
    by (simp_all add: fresh_manager_def)
  have max2: "max_cache_size small_config = 2"
    by (simp add: small_config_def)
  have g1: "\<forall>(k, t) \<in> set [(''A'', 2), (''A'', 3)].
      t - 1 \<le> real_of_int (cache_ttl small_config)"
    by (simp add: small_config_def)
  have g2: "\<forall>(k, t) \<in> set [(''B'', 5), (''A'', 6), (''A'', 7)].
      t - 1 \<le> real_of_int (cache_ttl small_config)
      \<and> t - 4 \<le> real_of_int (cache_ttl small_config)"
    by (simp add: small_config_def)
  have "run_ops small_config
        (Put ''A'' one_row 1 # reads [(''A'', 2), (''A'', 3)]
          @ Put ''B'' one_row 4 # reads [(''B'', 5), (''A'', 6), (''A'', 7)]
          @ [Put ''C'' one_row 8]) fresh_manager
       = Inr (fresh_manager\<lparr>query_cache := [(''B'', (one_row, 4)), (''C'', (one_row, 8))]\<rparr>)"
    by (rule fifo_eviction_ignores_reads [OF en empty max2 _ _ _ _ g1 g2]) simp_all
  with en empty max2 show ?thesis by simp
qed

section \<open>Lazy expiry\<close>

text \<open>
  C6. A lookup of an entry older than the TTL reports nothing and deletes the entry.
  A store under the same key afterwards finds the key absent; in a cache that was
  within its bound it evicts nothing and adds the key as a new, last entry.
\<close>

theorem lazy_expiry:
  assumes en: "cache_enabled s"
    and present: "map_of (query_cache s) key = Some (r, ts)"
    and expired: "now - ts > real_of_int (cache_ttl cfg)"
  shows "get_cached_result cfg now key s
           = (None, s\<lparr>query_cache := dict_del key (query_cache s)\<rparr>)
       \<and> map_of (dict_del key (query_cache s)) key = None
       \<and> (int (length (query_cache s)) \<le> max_cache_size cfg \<longrightarrow>
            set_cached_result cfg now' key v (snd (get_cached_result cfg now key s))
              = Inr (s\<lparr>query_cache := dict_del key (query_cache s) @ [(key, (v, now'))]\<rparr>))"
proof -
  have g: "get_cached_result cfg now key s
      = (None, s\<lparr>query_cache := dict_del key (query_cache s)\<rparr>)"
    using en present expired by (simp add: get_cached_result_def)
  have absent: "map_of (dict_del key (query_cache s)) key = None"
    by (simp add: map_of_dict_del)
  have shorter: "length (dict_del key (query_cache s)) < length (query_cache s)"
    using present by (rule length_dict_del_present)
  have "set_cached_result cfg now' key v (s\<lparr>query_cache := dict_del key (query_cache s)\<rparr>)
      = Inr (s\<lparr>query_cache := dict_del key (query_cache s) @ [(key, (v, now'))]\<rparr>)"
    if "int (length (query_cache s)) \<le> max_cache_size cfg"
    using that en shorter dict_set_absent[OF absent]
    by (simp add: set_cached_result_def)
  with g absent show ?thesis by simp
qed

theorem lazy_expiry_witness:
  "cache_enabled warm_manager
   \<and> map_of (query_cache warm_manager) ''SELECT 1'' = Some (one_row, 10)
   \<and> 400 - 10 > real_of_int (cache_ttl default_config)
   \<and> int (length (query_cache warm_manager)) \<le> max_cache_size default_config
   \<and> get_cached_result default_config 400 ''SELECT 1'' warm_manager
       = (None, warm_manager\<lparr>query_cache := []\<rparr>)
   \<and> set_cached_result default_config 401 ''SELECT 1'' one_row
        (snd (get_cached_result default_config 400 ''SELECT 1'' warm_manager))
       = Inr (warm_manager\<lparr>query_cache := [(''SELECT 1'', (one_row, 401))]\<rparr>)"
proof -
  have en: "cache_enabled warm_manager"
    and present: "map_of (query_cache warm_manager) ''SELECT 1'' = Some (one_row, 10)"
    and bound: "int (length (query_cache warm_manager)) \<le> max_cache_size default_config"
    by (simp_all add: warm_manager_def default_config_def)
  have expired: "400 - 10 > real_of_int (cache_ttl default_config)"
    by (simp add: default_config_def)
  have del: "dict_del ''SELECT 1'' (query_cache warm_manager) = []"
    by (simp add: warm_manager_def dict_del_def)
  note expiry = lazy_expiry [OF en present expired, of 401 one_row]
  from expiry have g: "get_cached_result default_config 400 ''SELECT 1'' warm_manager
      = (None, warm_manager\<lparr>query_cache := []\<rparr>)"
    by (simp add: del)
  from expiry bound have "set_cached_result default_config 401 ''SELECT 1'' one_row
        (snd (get_cached_result default_config 400 ''SELECT 1'' warm_manager))
       = Inr (warm_manager\<lparr>query_cache :=
           dict_del ''SELECT 1'' (query_cache warm_manager) @ [(''SELECT 1'', (one_row, 401))]\<rparr>)"
    by blast
  then have p: "set_cached_result default_config 401 ''SELECT 1'' one_row
        (snd (get_cached_result default_config 400 ''SELECT 1'' warm_manager))
       = Inr (warm_manager\<lparr>query_cache := [(''SELECT 1'', (one_row, 401))]\<rparr>)"
    by (simp only: del append_Nil)
  from en present expired bound g p show ?thesis
    by blast
qed

section \<open>Writes and the caches\<close>

text \<open>
  C1, as the claim states it, fails: a permitted write that the driver rejects leaves
  both caches empty, although each held an entry before the call.
\<close>

theorem failed_write_clears_caches:
  "is_write_operation ''DROP TABLE x'' \<and> allow_write_ops warm_manager
   \<and> fst (execute_query default_config failing_db 11 12 ''DROP TABLE x'' True warm_manager)
       = Inl (SqlError ''syntax error'')
   \<and> query_cache warm_manager = [(''SELECT 1'', (one_row, 10))]
   \<and> schema_cache warm_manager = [(''public.users'', (users_schema, 10))]
   \<and> query_cache (snd (execute_query default_config failing_db 11 12 ''DROP TABLE x'' True
        warm_manager)) = []
   \<and> schema_cache (snd (execute_query default_config failing_db 11 12 ''DROP TABLE x'' True
        warm_manager)) = []"
  by (simp add: drop_table_is_write)
    (simp add: execute_query_def run_statement_def clear_cache_def warm_manager_def
      failing_db_def drop_table_is_write)

lemma read_on_empty_cache_calls_driver:
  assumes conn: "connection s" and rd: "\<not> is_write_operation sql'"
    and empty: "query_cache s = []"
  shows "db_calls (snd (execute_query cfg db t_get t_put sql' use_cache s))
           = db_calls s @ [Execute sql']"
  using assms
  by (simp add: execute_query_def run_statement_def get_cached_result_def set_cached_result_def
      Let_def split: sum.splits option.splits prod.splits)

text \<open>
  C1, amended. With caching enabled, a permitted write clears both caches before the
  cursor is opened: they are empty after the call whatever the driver answers, success
  or failure, and the statement has reached the driver. A read that follows, whatever
  its key, finds nothing cached and invokes the driver again.
\<close>

theorem permitted_write_clears_caches:
  assumes conn: "connection s" and wr: "is_write_operation sql"
    and allow: "allow_write_ops s" and en: "cache_enabled s"
    and rd: "\<not> is_write_operation sql'"
  shows "query_cache (snd (execute_query cfg db t_get t_put sql use_cache s)) = []
       \<and> schema_cache (snd (execute_query cfg db t_get t_put sql use_cache s)) = []
       \<and> db_calls (snd (execute_query cfg db t_get t_put sql use_cache s))
           = db_calls s @ [Execute sql]
       \<and> db_calls (snd (execute_query cfg db' t_get' t_put' sql' use_cache'
             (snd (execute_query cfg db t_get t_put sql use_cache s))))
           = db_calls s @ [Execute sql, Execute sql']"
proof -
  let ?s1 = "snd (execute_query cfg db t_get t_put sql use_cache s)"
  have cleared: "query_cache ?s1 = [] \<and> schema_cache ?s1 = []
      \<and> db_calls ?s1 = db_calls s @ [Execute sql] \<and> connection ?s1"
    using conn wr allow en
    by (simp add: execute_query_def run_statement_def clear_cache_def Let_def
        split: sum.splits option.splits)
  then have "db_calls (snd (execute_query cfg db' t_get' t_put' sql' use_cache' ?s1))
      = db_calls ?s1 @ [Execute sql']"
    using rd by (intro read_on_empty_cache_calls_driver) simp_all
  with cleared show ?thesis by simp
qed

theorem permitted_write_clears_caches_witness:
  "connection warm_manager \<and> is_write_operation ''DROP TABLE x''
   \<and> allow_write_ops warm_manager \<and> cache_enabled warm_manager
   \<and> \<not> is_write_operation ''SELECT 1''
   \<and> query_cache (snd (execute_query default_config answering_db 11 12 ''DROP TABLE x'' True
        warm_manager)) = []
   \<and> schema_cache (snd (execute_query default_config answering_db 11 12 ''DROP TABLE x'' True
        warm_manager)) = []
   \<and> db_calls (snd (execute_query default_config answering_db 13 14 ''SELECT 1'' True
        (snd (execute_query default_config answering_db 11 12 ''DROP TABLE x'' True
          warm_manager))))
       = [Execute ''SELECT 1'', Describe ''public'' ''users'',
          Execute ''DROP TABLE x'', Execute ''SELECT 1'']"
proof -
  have c: "connection warm_manager" and a: "allow_write_ops warm_manager"
    and e: "cache_enabled warm_manager"
    and d: "db_calls warm_manager = [Execute ''SELECT 1'', Describe ''public'' ''users'']"
    by (simp_all add: warm_manager_def)
  show ?thesis
    using permitted_write_clears_caches [OF c drop_table_is_write a e select_is_read,
        of default_config answering_db 11 12 True answering_db 13 14 True]
      c a e d drop_table_is_write select_is_read
    by simp
qed

section \<open>Repeated reads\<close>

lemma set_cached_result_stores:
  assumes "cache_enabled s" and "set_cached_result cfg now key v s = Inr s'"
  shows "map_of (query_cache s') key = Some (v, now) \<and> cache_enabled s'
       \<and> connection s' = connection s \<and> db_calls s' = db_calls s"
  using assms
  by (auto simp: set_cached_result_def map_of_dict_set split: if_splits sum.splits)

lemma successful_read_is_cached:
  assumes conn: "connection s" and en: "cache_enabled s"
    and rd: "\<not> is_write_operation sql"
    and first: "execute_query cfg db t_get t_put sql True s = (Inr r, s')"
  shows "connection s' \<and> cache_enabled s'
       \<and> (\<exists>ts. map_of (query_cache s') (get_cache_key cfg sql) = Some (r, ts))
       \<and> length (db_calls s') \<le> Suc (length (db_calls s))"
proof (cases "fst (get_cached_result cfg t_get (get_cache_key cfg sql) s)")
  case (Some hit)
  then have state: "snd (get_cached_result cfg t_get (get_cache_key cfg sql) s) = s"
    by (rule get_hit_keeps_state)
  from Some state have g: "get_cached_result cfg t_get (get_cache_key cfg sql) s = (Some hit, s)"
    by (simp add: prod_eq_iff)
  from first conn rd g have "r = hit" and "s' = s"
    by (simp_all add: execute_query_def)
  moreover from g en have "\<exists>ts. map_of (query_cache s) (get_cache_key cfg sql) = Some (hit, ts)"
    by (auto simp: get_cached_result_def split: option.splits if_splits)
  ultimately show ?thesis using conn en by simp
next
  case None
  obtain s1 where g: "get_cached_result cfg t_get (get_cache_key cfg sql) s = (None, s1)"
    using None by (cases "get_cached_result cfg t_get (get_cache_key cfg sql) s") simp
  have s1: "connection s1 \<and> cache_enabled s1 \<and> db_calls s1 = db_calls s"
    using g conn en by (auto simp: get_cached_result_def split: option.splits if_splits)
  from first conn rd g have run: "run_statement cfg db t_put sql True s1 = (Inr r, s')"
    by (simp add: execute_query_def)
  let ?s2 = "s1\<lparr>db_calls := db_calls s1 @ [Execute sql]\<rparr>"
  from run have put: "set_cached_result cfg t_put (get_cache_key cfg sql) r ?s2 = Inr s'"
    by (auto simp: run_statement_def Let_def split: sum.splits)
  have "cache_enabled ?s2" using s1 by simp
  from set_cached_result_stores[OF this put] s1 show ?thesis by auto
qed

text \<open>
  C4. With a connection and caching enabled, let a read with \<open>use_cache\<close> return a
  result. If the same statement is run again next, with \<open>use_cache\<close>, while the age of
  its cache entry is within the TTL, the call returns the same result from the cache
  and leaves the manager, with its log of driver calls, as it was: whatever the driver
  would answer, it is not asked. Over both calls the driver is invoked at most once.
\<close>

theorem second_read_is_cache_hit:
  assumes conn: "connection s" and en: "cache_enabled s"
    and rd: "\<not> is_write_operation sql"
    and first: "execute_query cfg db t_get t_put sql True s = (Inr r, s')"
    and fresh: "\<forall>res ts. map_of (query_cache s') (get_cache_key cfg sql) = Some (res, ts)
                  \<longrightarrow> t_get' - ts \<le> real_of_int (cache_ttl cfg)"
  shows "execute_query cfg db' t_get' t_put' sql True s' = (Inr r, s')
       \<and> length (db_calls (snd (execute_query cfg db' t_get' t_put' sql True s')))
           \<le> Suc (length (db_calls s))"
proof -
  from successful_read_is_cached[OF conn en rd first] obtain ts where
    c: "connection s'" and e: "cache_enabled s'"
    and hit: "map_of (query_cache s') (get_cache_key cfg sql) = Some (r, ts)"
    and once: "length (db_calls s') \<le> Suc (length (db_calls s))"
    by blast
  from fresh hit have "t_get' - ts \<le> real_of_int (cache_ttl cfg)" by blast
  with e hit have "get_cached_result cfg t_get' (get_cache_key cfg sql) s' = (Some r, s')"
    by (simp add: get_cached_result_def)
  with c rd have "execute_query cfg db' t_get' t_put' sql True s' = (Inr r, s')"
    by (simp add: execute_query_def)
  with once show ?thesis by simp
qed

theorem second_read_is_cache_hit_witness:
  "connection fresh_manager \<and> cache_enabled fresh_manager
   \<and> \<not> is_write_operation ''SELECT 1''
   \<and> execute_query default_config answering_db 1 2 ''SELECT 1'' True fresh_manager
       = (Inr one_row, cached_manager)
   \<and> execute_query default_config failing_db 3 4 ''SELECT 1'' True cached_manager
       = (Inr one_row, cached_manager)
   \<and> db_calls cached_manager = [Execute ''SELECT 1'']"
proof -
  have c: "connection fresh_manager" and e: "cache_enabled fresh_manager"
    by (simp_all add: fresh_manager_def)
  have key: "get_cache_key default_config ''SELECT 1'' = ''SELECT 1''"
    by (simp add: get_cache_key_def default_config_def py_split_def py_isspace_def)
  have bound: "max_cache_size default_config = 128"
    by (simp add: default_config_def)
  have first: "execute_query default_config answering_db 1 2 ''SELECT 1'' True fresh_manager
      = (Inr one_row, cached_manager)"
    using select_is_read
    by (simp add: execute_query_def run_statement_def get_cached_result_def
        set_cached_result_def key bound fresh_manager_def cached_manager_def answering_db_def
        one_row_def Let_def)
  have fresh: "\<forall>res ts. map_of (query_cache cached_manager)
        (get_cache_key default_config ''SELECT 1'') = Some (res, ts)
      \<longrightarrow> 3 - ts \<le> real_of_int (cache_ttl default_config)"
    by (simp add: key cached_manager_def default_config_def)
  have d: "db_calls cached_manager = [Execute ''SELECT 1'']"
    by (simp add: cached_manager_def)
  from second_read_is_cache_hit [OF c e select_is_read first fresh, of failing_db 4]
  have "execute_query default_config failing_db 3 4 ''SELECT 1'' True cached_manager
      = (Inr one_row, cached_manager)"
    by blast
  with c e select_is_read first d show ?thesis
    by blast
qed

section \<open>Schema lookups of missing tables\<close>

text \<open>
  C9. With a connection, a lookup of a table for which the catalog returns no column,
  and for which the schema cache holds no entry, raises the not-found error after it
  has asked the catalog, and leaves the schema cache as it was: no entry is made. A
  second lookup of the same table, whatever its flags, asks the catalog again.
\<close>

theorem missing_table_is_not_cached:
  assumes conn: "connection s"
    and missing: "column_query cat sname tname = Inr []"
    and uncached: "map_of (schema_cache s) (sname @ ''.'' @ tname) = None"
  shows "fst (get_table_schema cfg cat t_get t_put sname tname use_cache s)
           = Inl (TableNotFound sname tname)
       \<and> schema_cache (snd (get_table_schema cfg cat t_get t_put sname tname use_cache s))
           = schema_cache s
       \<and> db_calls (snd (get_table_schema cfg cat t_get t_put sname tname use_cache s))
           = db_calls s @ [Describe sname tname]
       \<and> db_calls (snd (get_table_schema cfg cat' t_get' t_put' sname tname use_cache'
             (snd (get_table_schema cfg cat t_get t_put sname tname use_cache s))))
           = db_calls s @ [Describe sname tname, Describe sname tname]"
proof -
  let ?s1 = "s\<lparr>db_calls := db_calls s @ [Describe sname tname]\<rparr>"
  have first: "get_table_schema cfg cat t_get t_put sname tname use_cache s
      = (Inl (TableNotFound sname tname), ?s1)"
    using conn missing uncached
    by (simp add: get_table_schema_def schema_cache_lookup_def Let_def)
  have uncached1: "map_of (schema_cache ?s1) (sname @ ''.'' @ tname) = None"
    using uncached by simp
  have second: "db_calls (snd (get_table_schema cfg cat' t_get' t_put' sname tname use_cache' ?s1))
      = db_calls ?s1 @ [Describe sname tname]"
    using conn uncached1
    by (simp add: get_table_schema_def schema_cache_lookup_def Let_def split: sum.splits)
  show ?thesis using first second by simp
qed

theorem missing_table_is_not_cached_witness:
  "connection fresh_manager
   \<and> column_query empty_catalog ''public'' ''ghost'' = Inr []
   \<and> map_of (schema_cache fresh_manager) (''public'' @ ''.'' @ ''ghost'') = None
   \<and> fst (get_table_schema default_config empty_catalog 1 2 ''public'' ''ghost'' True
        fresh_manager) = Inl (TableNotFound ''public'' ''ghost'')
   \<and> schema_cache (snd (get_table_schema default_config empty_catalog 1 2 ''public'' ''ghost''
        True fresh_manager)) = []
   \<and> db_calls (snd (get_table_schema default_config empty_catalog 3 4 ''public'' ''ghost'' True
        (snd (get_table_schema default_config empty_catalog 1 2 ''public'' ''ghost'' True
          fresh_manager))))
       = [Describe ''public'' ''ghost'', Describe ''public'' ''ghost'']"
proof -
  have c: "connection fresh_manager"
    and m: "column_query empty_catalog ''public'' ''ghost'' = Inr []"
    and u: "map_of (schema_cache fresh_manager) (''public'' @ ''.'' @ ''ghost'') = None"
    and sc: "schema_cache fresh_manager = []" and d: "db_calls fresh_manager = []"
    by (simp_all add: fresh_manager_def empty_catalog_def)
  note lookup = missing_table_is_not_cached [OF c m u,
      of default_config 1 2 True empty_catalog 3 4 True]
  from lookup have r: "fst (get_table_schema default_config empty_catalog 1 2 ''public''
        ''ghost'' True fresh_manager) = Inl (TableNotFound ''public'' ''ghost'')"
    by blast
  from lookup have k: "schema_cache (snd (get_table_schema default_config empty_catalog 1 2
        ''public'' ''ghost'' True fresh_manager)) = []"
    by (simp only: sc)
  from lookup have l: "db_calls (snd (get_table_schema default_config empty_catalog 3 4
        ''public'' ''ghost'' True
        (snd (get_table_schema default_config empty_catalog 1 2 ''public'' ''ghost'' True
          fresh_manager))))
       = [Describe ''public'' ''ghost'', Describe ''public'' ''ghost'']"
    by (simp only: d append_Nil)
  from c m u r k l show ?thesis
    by blast
qed

section \<open>Cache keys and layout\<close>

lemma split_ws_spaces: "list_all py_isspace w \<Longrightarrow> split_ws [] (w @ b) = split_ws [] b"
  by (induction w) auto

lemma split_ws_space_run:
  "w \<noteq> [] \<Longrightarrow> list_all py_isspace w \<Longrightarrow> split_ws acc (w @ b) = flush acc @ split_ws [] b"
  by (cases w) (auto simp: flush_def split_ws_spaces)

lemma split_ws_run_replaced:
  assumes "w \<noteq> []" "w' \<noteq> []" "list_all py_isspace w" "list_all py_isspace w'"
  shows "split_ws acc (a @ w @ b) = split_ws acc (a @ w' @ b)"
proof (induction a arbitrary: acc)
  case Nil
  show ?case using assms by (simp add: split_ws_space_run)
next
  case (Cons c a)
  show ?case by (simp add: Cons.IH)
qed

lemma split_ws_only_spaces: "list_all py_isspace w \<Longrightarrow> split_ws acc w = flush acc"
proof (cases w)
  case Nil
  then show ?thesis by (simp add: flush_def)
next
  case (Cons c cs)
  assume "list_all py_isspace w"
  with Cons have "split_ws acc (w @ []) = flush acc @ split_ws [] []"
    by (intro split_ws_space_run) auto
  then show ?thesis by simp
qed

lemma split_ws_trailing:
  "list_all py_isspace w \<Longrightarrow> split_ws acc (s @ w) = split_ws acc s"
proof (induction s arbitrary: acc)
  case Nil
  then show ?case by (simp add: split_ws_only_spaces flush_def)
next
  case (Cons c s)
  then show ?case by simp
qed

lemma same_layout_split: "same_layout s t \<Longrightarrow> py_split s = py_split t"
proof (induction rule: same_layout.induct)
  case (same s)
  show ?case by simp
next
  case (run w w' a b)
  then show ?case unfolding py_split_def by (rule split_ws_run_replaced)
next
  case (leading w s)
  then show ?case unfolding py_split_def by (rule split_ws_spaces)
next
  case (trailing w s)
  then show ?case unfolding py_split_def by (rule split_ws_trailing)
next
  case (sym s t)
  then show ?case by simp
next
  case (trans s t u)
  then show ?case by simp
qed

text \<open>
  C8. Two statements that differ only in whitespace runs have the same cache key,
  whatever the hash function is: \<open>split\<close> yields the same tokens for both.
\<close>

theorem cache_key_ignores_layout:
  assumes "same_layout s t"
  shows "get_cache_key cfg s = get_cache_key cfg t"
  using same_layout_split[OF assms] by (simp add: get_cache_key_def)

theorem cache_key_ignores_layout_witness:
  "same_layout (''SELECT  *'' @ CHR 0x0A # ''FROM t'') ''SELECT * FROM t''
   \<and> get_cache_key default_config (''SELECT  *'' @ CHR 0x0A # ''FROM t'')
       = get_cache_key default_config ''SELECT * FROM t''"
proof -
  have "same_layout (''SELECT'' @ ''  '' @ (''*'' @ CHR 0x0A # ''FROM t''))
      (''SELECT'' @ '' '' @ (''*'' @ CHR 0x0A # ''FROM t''))"
    by (rule same_layout.run) (simp_all add: py_isspace_def)
  moreover have "same_layout (''SELECT *'' @ [CHR 0x0A] @ ''FROM t'')
      (''SELECT *'' @ '' '' @ ''FROM t'')"
    by (rule same_layout.run) (simp_all add: py_isspace_def)
  ultimately have layout:
    "same_layout (''SELECT  *'' @ CHR 0x0A # ''FROM t'') ''SELECT * FROM t''"
    using same_layout.trans by simp
  from cache_key_ignores_layout [OF layout, of default_config] layout show ?thesis
    by blast
qed

section \<open>The classifier and the specification's algorithm\<close>

text \<open>
  The classifier computes what section 4.1 describes on every statement in which each
  \<open>--\<close> met by the scan is followed by a line feed, and so on the three examples of
  the specification.
\<close>

lemma terminated_comments_stripped:
  "\<not> unterminated_comment sql \<Longrightarrow> strip_line_comments sql = spec_strip_line_comments sql"
  by (induction sql rule: strip_line_comments.induct) (auto split: option.splits)

lemma classifier_agrees_when_terminated:
  "\<not> unterminated_comment sql \<Longrightarrow> is_write_operation sql \<longleftrightarrow> spec_classify sql = WRITE"
  by (auto simp: is_write_operation_def spec_classify_def sql_clean_def Let_def
      terminated_comments_stripped split: list.splits)

lemma classifier_examples:
  "is_write_operation (''-- comment'' @ [CHR 0x0A] @ ''  SELECT 1'') = False"
  "is_write_operation ''  DROP TABLE x'' = True"
  "is_write_operation '''' = False"
  by (simp_all add: classifier_defs)

lemmas spec_defs = spec_classify_def py_strip_def py_isspace_def
  py_split_def py_upper_def upper_char_def write_keywords_def

text \<open>
  C7. The regular expression for single-line comments asks for a line feed, so a
  comment that ends the text is not stripped. In \<open>COMMIT--done\<close> the first token is
  then \<open>COMMIT--done\<close>, which is no keyword: the source classifies the statement as a
  read, where the algorithm of the specification strips the comment and finds the
  keyword \<open>COMMIT\<close>.
\<close>

theorem unterminated_comment_hides_write:
  "spec_classify ''COMMIT--done'' = WRITE \<and> is_write_operation ''COMMIT--done'' = False"
  by (simp add: classifier_defs spec_defs)

end
